theory Spec2Isabelle
  imports Main
begin

section \<open>Python values used by the notebook\<close>

text \<open>
  A Python \<open>str\<close> is a sequence of Unicode code points; it is modelled as the list of
  its code points. \<open>ascii\<close> writes the ASCII part of a literal.
\<close>

type_synonym pystr = "nat list"

definition ascii :: "string \<Rightarrow> pystr" where
  "ascii s = map of_char s"

text \<open>
  Exceptions: the ones raised by \<open>str.format\<close> and by pandas on the paths of
  \<open>translate_column\<close>, and \<open>ServiceError\<close> for whatever the remote call (or reading
  \<open>.text\<close> of its response) raises, told apart by a code.
\<close>

datatype exn = KeyError pystr | IndexError | ValueError | ServiceError nat

subsection \<open>\<open>str.strip()\<close>\<close>

text \<open>
  \<open>str.strip()\<close> without arguments drops the code points for which \<open>str.isspace\<close>
  holds from both ends: it advances an index from the left, another from the right, and
  returns the slice between them.
\<close>

definition py_isspace :: "nat \<Rightarrow> bool" where
  "py_isspace c \<longleftrightarrow>
     (9 \<le> c \<and> c \<le> 13) \<or> (28 \<le> c \<and> c \<le> 32) \<or> c = 133 \<or> c = 160 \<or> c = 5760 \<or>
     (8192 \<le> c \<and> c \<le> 8202) \<or> c = 8232 \<or> c = 8233 \<or> c = 8239 \<or> c = 8287 \<or> c = 12288"

definition lstrip :: "pystr \<Rightarrow> pystr" where
  "lstrip s = dropWhile py_isspace s"

definition rstrip :: "pystr \<Rightarrow> pystr" where
  "rstrip s = rev (dropWhile py_isspace (rev s))"

definition strip :: "pystr \<Rightarrow> pystr" where
  "strip s = rstrip (lstrip s)"

subsection \<open>\<open>str(int)\<close> and the f-string of the notifications\<close>

fun digits :: "nat \<Rightarrow> pystr" where
  "digits n = (if n < 10 then [48 + n] else digits (n div 10) @ [48 + n mod 10])"

definition str_int :: "int \<Rightarrow> pystr" where
  "str_int i = (if i < 0 then 45 # digits (nat (- i)) else digits (nat i))"

text \<open>\<^verbatim>\<open>f"Successful translation: {successful_translation}"\<close>\<close>

definition notification :: "int \<Rightarrow> pystr" where
  "notification successful_translation =
     ascii ''Successful translation: '' @ str_int successful_translation"

subsection \<open>\<open>str.format(**kwargs)\<close>\<close>

text \<open>
  The scanner of \<open>str.format\<close>, for replacement fields that are plain keyword names
  (the only kind the notebook's template has): literal text is copied, \<open>{{\<close> and \<open>}}\<close>
  stand for one brace, a lone \<open>}\<close> or an unclosed \<open>{\<close> is a ValueError, and
  \<open>{name}\<close> is replaced by the keyword argument \<open>name\<close>, inserted as it is and never
  scanned again. A field with an empty or numeric name asks for a positional argument,
  of which there is none (IndexError); a name that is no keyword is a KeyError.
  The second argument of \<open>format_scan\<close> is the field name read so far, \<open>None\<close> outside
  a field. Code point 123 is \<open>{\<close>, 125 is \<open>}\<close>.
\<close>

definition emit :: "pystr \<Rightarrow> exn + pystr \<Rightarrow> exn + pystr" where
  "emit s r = (case r of Inl e \<Rightarrow> Inl e | Inr out \<Rightarrow> Inr (s @ out))"

definition lookup_field :: "(pystr \<rightharpoonup> pystr) \<Rightarrow> pystr \<Rightarrow> exn + pystr" where
  "lookup_field kwargs name =
     (if list_all (\<lambda>c. 48 \<le> c \<and> c \<le> 57) name then Inl IndexError
      else case kwargs name of None \<Rightarrow> Inl (KeyError name) | Some v \<Rightarrow> Inr v)"

fun format_scan :: "(pystr \<rightharpoonup> pystr) \<Rightarrow> pystr option \<Rightarrow> pystr \<Rightarrow> exn + pystr" where
  "format_scan kwargs None [] = Inr []"
| "format_scan kwargs (Some name) [] = Inl ValueError"
| "format_scan kwargs None (c # cs) =
     (if c = 123 then
        (case cs of
           [] \<Rightarrow> Inl ValueError
         | c' # cs' \<Rightarrow>
             if c' = 123 then emit [123] (format_scan kwargs None cs')
             else format_scan kwargs (Some []) cs)
      else if c = 125 then
        (case cs of
           [] \<Rightarrow> Inl ValueError
         | c' # cs' \<Rightarrow>
             if c' = 125 then emit [125] (format_scan kwargs None cs')
             else Inl ValueError)
      else emit [c] (format_scan kwargs None cs))"
| "format_scan kwargs (Some name) (c # cs) =
     (if c = 125 then
        (case lookup_field kwargs name of
           Inl e \<Rightarrow> Inl e
         | Inr v \<Rightarrow> emit v (format_scan kwargs None cs))
      else format_scan kwargs (Some (name @ [c])) cs)"

definition py_format :: "pystr \<Rightarrow> (pystr \<rightharpoonup> pystr) \<Rightarrow> exn + pystr" where
  "py_format template kwargs = format_scan kwargs None template"

section \<open>pandas: frames and series\<close>

text \<open>
  A DataFrame is its row index (the labels, in row order) and its columns by name; a cell
  is the text that \<open>format\<close> inserts for it. In a DataFrame every column is as long as
  the index (\<open>wf_frame\<close>). A Series is its values and its index.
\<close>

record 'i dataframe =
  df_index :: "'i list"
  df_columns :: "pystr \<rightharpoonup> pystr list"

record 'i series =
  sr_values :: "pystr list"
  sr_index :: "'i list"

definition wf_frame :: "'i dataframe \<Rightarrow> bool" where
  "wf_frame d \<longleftrightarrow> (\<forall>col \<in> ran (df_columns d). length col = length (df_index d))"

text \<open>\<open>df[column_name]\<close>: the column, or KeyError.\<close>

definition getitem :: "'i dataframe \<Rightarrow> pystr \<Rightarrow> exn + pystr list" where
  "getitem d column_name =
     (case df_columns d column_name of
        None \<Rightarrow> Inl (KeyError column_name)
      | Some col \<Rightarrow> Inr col)"

text \<open>\<open>pd.Series(data, index=index)\<close> of a list: ValueError unless the lengths agree.\<close>

definition pd_Series :: "pystr list \<Rightarrow> 'i list \<Rightarrow> exn + 'i series" where
  "pd_Series data idx =
     (if length data = length idx then Inr \<lparr>sr_values = data, sr_index = idx\<rparr>
      else Inl ValueError)"

text \<open>
  \<open>df[name] = series\<close>: pandas stores the values of the series as they are when its
  index equals the frame's, and reindexes it otherwise; the reindexing is pandas' own and
  is taken as a parameter.
\<close>

definition setitem ::
  "('i series \<Rightarrow> 'i list \<Rightarrow> exn + pystr list) \<Rightarrow> 'i dataframe \<Rightarrow> pystr \<Rightarrow> 'i series
     \<Rightarrow> exn + 'i dataframe" where
  "setitem reindex d name s =
     (if sr_index s = df_index d
      then Inr (d\<lparr>df_columns := (df_columns d)(name \<mapsto> sr_values s)\<rparr>)
      else case reindex s (df_index d) of
             Inl e \<Rightarrow> Inl e
           | Inr vals \<Rightarrow> Inr (d\<lparr>df_columns := (df_columns d)(name \<mapsto> vals)\<rparr>))"

section \<open>The generative model and its safety settings\<close>

datatype harm_category =
    HARM_CATEGORY_UNSPECIFIED
  | HARM_CATEGORY_HATE_SPEECH
  | HARM_CATEGORY_DANGEROUS_CONTENT
  | HARM_CATEGORY_HARASSMENT
  | HARM_CATEGORY_SEXUALLY_EXPLICIT

datatype harm_block_threshold =
    HARM_BLOCK_THRESHOLD_UNSPECIFIED
  | BLOCK_LOW_AND_ABOVE
  | BLOCK_MEDIUM_AND_ABOVE
  | BLOCK_ONLY_HIGH
  | BLOCK_NONE

record safety_setting =
  category :: harm_category
  threshold :: harm_block_threshold

text \<open>
  The remote service is opaque: from its own state, a prompt and the safety settings of the
  request it gives the generated text or fails, and moves to a new state.
  The value stands for \<open>model.generate_content(prompt, safety_settings=...).text\<close>.
\<close>

type_synonym 's generative_model =
  "'s \<Rightarrow> pystr \<Rightarrow> safety_setting list \<Rightarrow> (exn + pystr) \<times> 's"

section \<open>The state of the notebook\<close>

text \<open>
  What a run can observe or change: the DataFrame objects by address (\<open>next_frame\<close> is
  the first unused address), the module global \<open>safety_config\<close>, the state of the remote
  service, and the trace of what was done, in order: a request sent to the service with
  its safety settings, the notification printed inside the loop (\<open>Milestone\<close>) and the
  one printed after it (\<open>Final\<close>), each with the count it cites. The progress bar of
  \<open>tqdm\<close> goes to the error stream and is not part of the trace.
\<close>

datatype event =
    Request pystr "safety_setting list"
  | Milestone int
  | Final int

record ('i, 's) world =
  frames :: "nat \<Rightarrow> 'i dataframe"
  next_frame :: nat
  safety_config :: "safety_setting list"
  service :: 's
  trace :: "event list"

definition print_event :: "event \<Rightarrow> ('i, 's) world \<Rightarrow> ('i, 's) world" where
  "print_event e w = w\<lparr>trace := trace w @ [e]\<rparr>"

text \<open>The lines on standard output that a trace stands for.\<close>

fun stdout :: "event list \<Rightarrow> pystr list" where
  "stdout [] = []"
| "stdout (Request prompt settings # es) = stdout es"
| "stdout (Milestone n # es) = notification n # stdout es"
| "stdout (Final n # es) = notification n # stdout es"

text \<open>The prompts sent to the service, in order.\<close>

fun requests :: "event list \<Rightarrow> pystr list" where
  "requests [] = []"
| "requests (Request prompt settings # es) = prompt # requests es"
| "requests (Milestone n # es) = requests es"
| "requests (Final n # es) = requests es"

text \<open>The notifications of a trace, in order.\<close>

fun notifications :: "event list \<Rightarrow> event list" where
  "notifications [] = []"
| "notifications (Request prompt settings # es) = notifications es"
| "notifications (e # es) = e # notifications es"

text \<open>What a run added to the trace.\<close>

definition new_events :: "('i, 's) world \<Rightarrow> ('i, 's) world \<Rightarrow> event list" where
  "new_events w w' = drop (length (trace w)) (trace w')"

section \<open>The notebook's cells\<close>

subsection \<open>Safety settings\<close>

definition define_safety_settings :: "('i, 's) world \<Rightarrow> ('i, 's) world" where
  "define_safety_settings w = w\<lparr>safety_config :=
     [\<lparr>category = HARM_CATEGORY_DANGEROUS_CONTENT, threshold = BLOCK_NONE\<rparr>,
      \<lparr>category = HARM_CATEGORY_HARASSMENT, threshold = BLOCK_NONE\<rparr>,
      \<lparr>category = HARM_CATEGORY_HATE_SPEECH, threshold = BLOCK_NONE\<rparr>,
      \<lparr>category = HARM_CATEGORY_SEXUALLY_EXPLICIT, threshold = BLOCK_NONE\<rparr>]\<rparr>"

subsection \<open>\<open>translate_column\<close>\<close>

text \<open>The template, a triple-quoted literal; the Thai example is given by its code points.\<close>

definition example_prompt :: pystr where
  "example_prompt =
     ascii ''\<newline>    Please translate the following Thai YouTube comments from Thai to English and only return the translated text:\<newline>    [Thai Text]\<newline>    ''
     @ [3585, 3655, 3626, 3617, 3588, 3623, 3619, 3605, 3636, 3604, 3649, 3627, 3621, 3632]
     @ ascii '' ''
     @ [3648, 3627, 3617, 3639, 3629, 3609, 3652, 3617, 3656, 3652, 3604, 3657, 3585, 3621,
        3633, 3623, 3648, 3621, 3618, 3649, 3617, 3626, 3652, 3617, 3656, 3651, 3626, 3656,
        3652, 3617, 3656, 3648, 3623, 3657, 3609, 3619, 3632, 3618, 3632]
     @ ascii ''\<newline>    [English Text]\<newline>    It's no wonder they got infected. It's like they weren't scared at all, not wearing a mask and not social distancing.\<newline>\<newline>    [Thai Text]\<newline>    {text}\<newline>    [English Text]\<newline>    ''"

text \<open>
  \<open>model.generate_content(prompt, safety_settings=safety_config).text\<close>: the global is
  read at the call, the request is sent, the service moves on.
\<close>

definition generate_content ::
  "'s generative_model \<Rightarrow> pystr \<Rightarrow> ('i, 's) world \<Rightarrow> (exn + pystr) \<times> ('i, 's) world" where
  "generate_content model prompt w =
     (case model (service w) prompt (safety_config w) of
        (r, s') \<Rightarrow>
          (r, w\<lparr>service := s', trace := trace w @ [Request prompt (safety_config w)]\<rparr>))"

text \<open>
  The \<open>for\<close> loop over the column, with the two locals it updates. An exception of the
  body is caught and raised again, so it ends the loop; the locals are then lost.
\<close>

fun translate_loop ::
  "'s generative_model \<Rightarrow> pystr list \<Rightarrow> pystr list \<Rightarrow> int \<Rightarrow> ('i, 's) world
     \<Rightarrow> (exn + pystr list \<times> int) \<times> ('i, 's) world" where
  "translate_loop model [] translated_texts successful_translation w =
     (Inr (translated_texts, successful_translation), w)"
| "translate_loop model (text # rest) translated_texts successful_translation w =
     (let w1 = (if translated_texts \<noteq> [] \<and> successful_translation mod 100 = 0
                then print_event (Milestone successful_translation) w else w)
      in case py_format example_prompt [ascii ''text'' \<mapsto> text] of
           Inl e \<Rightarrow> (Inl e, w1)
         | Inr prompt \<Rightarrow>
             (case generate_content model prompt w1 of
                (Inl e, w2) \<Rightarrow> (Inl e, w2)
              | (Inr response_text, w2) \<Rightarrow>
                  translate_loop model rest (translated_texts @ [strip response_text])
                    (successful_translation + 1) w2))"

definition translate_column ::
  "nat \<Rightarrow> pystr \<Rightarrow> 's generative_model \<Rightarrow> ('i, 's) world
     \<Rightarrow> (exn + 'i series) \<times> ('i, 's) world" where
  "translate_column df column_name model w =
     (case getitem (frames w df) column_name of
        Inl e \<Rightarrow> (Inl e, w)
      | Inr col \<Rightarrow>
          (case translate_loop model col [] 0 w of
             (Inl e, w') \<Rightarrow> (Inl e, w')
           | (Inr (translated_texts, successful_translation), w') \<Rightarrow>
               (let w'' = print_event (Final successful_translation) w'
                in (pd_Series translated_texts (df_index (frames w'' df)), w''))))"

subsection \<open>The cells that translate a dataset\<close>

text \<open>\<open>df.copy(deep=True)\<close>: a new DataFrame object with the same index and data.\<close>

definition copy_deep :: "nat \<Rightarrow> ('i, 's) world \<Rightarrow> nat \<times> ('i, 's) world" where
  "copy_deep df w =
     (next_frame w,
      w\<lparr>frames := (frames w)(next_frame w := frames w df), next_frame := Suc (next_frame w)\<rparr>)"

text \<open>
  \<^verbatim>\<open>df['english_comment_text'] = translate_column(df.copy(deep=True), "comment_text", model)\<close>
  The right-hand side is evaluated first; the result is the exception that ended the
  cell, if any, and the state it leaves.
\<close>

definition translate_cell ::
  "('i series \<Rightarrow> 'i list \<Rightarrow> exn + pystr list) \<Rightarrow> nat \<Rightarrow> 's generative_model
     \<Rightarrow> ('i, 's) world \<Rightarrow> exn option \<times> ('i, 's) world" where
  "translate_cell reindex df model w =
     (case copy_deep df w of
        (df_copy, w1) \<Rightarrow>
          (case translate_column df_copy (ascii ''comment_text'') model w1 of
             (Inl e, w2) \<Rightarrow> (Some e, w2)
           | (Inr s, w2) \<Rightarrow>
               (case setitem reindex (frames w2 df) (ascii ''english_comment_text'') s of
                  Inl e \<Rightarrow> (Some e, w2)
                | Inr d \<Rightarrow> (None, w2\<lparr>frames := (frames w2)(df := d)\<rparr>))))"

section \<open>Describing a run\<close>

subsection \<open>The rendered prompt\<close>

text \<open>
  The template is the text before the placeholder, the placeholder \<open>{text}\<close> and the
  text after it; \<open>prompt_for\<close> puts a row's text in the placeholder's place.
\<close>

definition prompt_before :: pystr where
  "prompt_before =
     ascii ''\<newline>    Please translate the following Thai YouTube comments from Thai to English and only return the translated text:\<newline>    [Thai Text]\<newline>    ''
     @ [3585, 3655, 3626, 3617, 3588, 3623, 3619, 3605, 3636, 3604, 3649, 3627, 3621, 3632]
     @ ascii '' ''
     @ [3648, 3627, 3617, 3639, 3629, 3609, 3652, 3617, 3656, 3652, 3604, 3657, 3585, 3621,
        3633, 3623, 3648, 3621, 3618, 3649, 3617, 3626, 3652, 3617, 3656, 3651, 3626, 3656,
        3652, 3617, 3656, 3648, 3623, 3657, 3609, 3619, 3632, 3618, 3632]
     @ ascii ''\<newline>    [English Text]\<newline>    It's no wonder they got infected. It's like they weren't scared at all, not wearing a mask and not social distancing.\<newline>\<newline>    [Thai Text]\<newline>    ''"

definition prompt_after :: pystr where
  "prompt_after = ascii ''\<newline>    [English Text]\<newline>    ''"

definition prompt_for :: "pystr \<Rightarrow> pystr" where
  "prompt_for text = prompt_before @ text @ prompt_after"

subsection \<open>What the service answers\<close>

text \<open>
  The service alone, asked a sequence of prompts one after the other with the same safety
  settings, up to its first failure: the replies it gave, the failure if there was one,
  and the state it is left in. Reply \<open>i\<close> is the response to prompt \<open>i\<close>; a run in which
  the call succeeds on every row is one with no failure, and a run in which it fails on
  row \<open>k\<close> is one with \<open>k\<close> replies and a failure.
\<close>

fun service_replies ::
  "'s generative_model \<Rightarrow> safety_setting list \<Rightarrow> 's \<Rightarrow> pystr list
     \<Rightarrow> pystr list \<times> exn option \<times> 's" where
  "service_replies model settings s [] = ([], None, s)"
| "service_replies model settings s (prompt # prompts) =
     (case model s prompt settings of
        (Inl e, s') \<Rightarrow> ([], Some e, s')
      | (Inr reply, s') \<Rightarrow>
          (case service_replies model settings s' prompts of
             (replies, failure, s'') \<Rightarrow> (reply # replies, failure, s'')))"

text \<open>The number of rows for which a request is sent.\<close>

definition attempted :: "pystr list \<Rightarrow> exn option \<Rightarrow> nat" where
  "attempted replies failure =
     (case failure of None \<Rightarrow> length replies | Some e \<Rightarrow> Suc (length replies))"

subsection \<open>The expected trace\<close>

text \<open>
  The events of the iteration on row \<open>j\<close> (counted from 0): a milestone citing \<open>j\<close>
  when \<open>j\<close> is a positive multiple of 100, then the request with the row's prompt.
\<close>

definition row_events :: "safety_setting list \<Rightarrow> nat \<times> pystr \<Rightarrow> event list" where
  "row_events settings = (\<lambda>(j, text).
     (if 0 < j \<and> j mod 100 = 0 then [Milestone (int j)] else [])
     @ [Request (prompt_for text) settings])"

definition loop_events :: "safety_setting list \<Rightarrow> nat \<Rightarrow> pystr list \<Rightarrow> event list" where
  "loop_events settings j texts = concat (map (row_events settings) (enumerate j texts))"

text \<open>The positive multiples of 100 among \<open>i, \<dots>, i + n - 1\<close>.\<close>

definition milestone_counts :: "nat \<Rightarrow> nat \<Rightarrow> nat list" where
  "milestone_counts i n = filter (\<lambda>j. 0 < j \<and> j mod 100 = 0) [i..<i + n]"

subsection \<open>What the service receives\<close>

text \<open>
  A service wrapped so that its state also keeps the safety settings of every call it
  receives, in order, and the state of the notebook with such a service, nothing
  received yet.
\<close>

definition recording ::
  "'s generative_model \<Rightarrow> ('s \<times> safety_setting list list) generative_model" where
  "recording model = (\<lambda>(s, received) prompt settings.
     case model s prompt settings of (r, s') \<Rightarrow> (r, (s', received @ [settings])))"

definition with_recorder ::
  "('i, 's) world \<Rightarrow> ('i, 's \<times> safety_setting list list) world" where
  "with_recorder w =
     \<lparr>frames = frames w, next_frame = next_frame w, safety_config = safety_config w,
      service = (service w, []), trace = trace w\<rparr>"

subsection \<open>Example data\<close>

text \<open>
  A frame with a \<open>comment_text\<close> column and the default row labels, the state of a
  notebook that holds it after the safety settings were defined, a service that always
  answers the same text, one that fails at its call number \<open>k\<close> (quota exceeded), and
  one that answers only a request whose settings are the four categories with nothing
  blocked.
\<close>

definition example_frame :: "pystr list \<Rightarrow> nat dataframe" where
  "example_frame col =
     \<lparr>df_index = [0..<length col], df_columns = [ascii ''comment_text'' \<mapsto> col]\<rparr>"

definition example_world :: "pystr list \<Rightarrow> (nat, nat) world" where
  "example_world col = define_safety_settings
     \<lparr>frames = (\<lambda>a. example_frame col), next_frame = 1, safety_config = [],
      service = 0, trace = []\<rparr>"

definition example_reply :: pystr where
  "example_reply = ascii '' \<newline>It is  fine.\<newline> ''"

definition steady_model :: "nat generative_model" where
  "steady_model s prompt settings = (Inr example_reply, Suc s)"

definition failing_model :: "nat \<Rightarrow> nat generative_model" where
  "failing_model k s prompt settings =
     (if s = k then Inl (ServiceError 429) else Inr example_reply, Suc s)"

definition policy_model :: "nat generative_model" where
  "policy_model s prompt settings =
     (if map category settings
           = [HARM_CATEGORY_DANGEROUS_CONTENT, HARM_CATEGORY_HARASSMENT,
              HARM_CATEGORY_HATE_SPEECH, HARM_CATEGORY_SEXUALLY_EXPLICIT]
         \<and> list_all (\<lambda>x. threshold x = BLOCK_NONE) settings
      then Inr example_reply else Inl (ServiceError 400),
      Suc s)"

section \<open>Properties\<close>

subsection \<open>Rendering the prompt\<close>

lemma example_prompt_split:
  "example_prompt = prompt_before @ ascii ''{text}'' @ prompt_after"
  by (simp add: example_prompt_def prompt_before_def prompt_after_def ascii_def)

lemma format_scan_literal:
  "\<forall>c \<in> set s. c \<noteq> 123 \<and> c \<noteq> 125 \<Longrightarrow>
   format_scan kwargs None (s @ r) = emit s (format_scan kwargs None r)"
proof (induction s)
  case Nil
  show ?case by (cases "format_scan kwargs None r") (simp_all add: emit_def)
next
  case (Cons c s)
  then show ?case by (auto simp: emit_def split: sum.splits)
qed

lemma prompt_before_plain: "\<forall>c \<in> set prompt_before. c \<noteq> 123 \<and> c \<noteq> 125"
  by (simp add: prompt_before_def ascii_def)

lemma prompt_after_plain: "\<forall>c \<in> set prompt_after. c \<noteq> 123 \<and> c \<noteq> 125"
  by (simp add: prompt_after_def ascii_def)

lemma format_scan_text_field:
  "format_scan [ascii ''text'' \<mapsto> t] None (ascii ''{text}'' @ r)
     = emit t (format_scan [ascii ''text'' \<mapsto> t] None r)"
  by (simp add: ascii_def lookup_field_def)

lemma py_format_example_prompt:
  "py_format example_prompt [ascii ''text'' \<mapsto> t] = Inr (prompt_for t)"
proof -
  have "format_scan [ascii ''text'' \<mapsto> t] None prompt_after = Inr prompt_after"
    using format_scan_literal [OF prompt_after_plain, of "[ascii ''text'' \<mapsto> t]" "[]"]
    by (simp add: emit_def)
  then show ?thesis
    unfolding py_format_def example_prompt_split prompt_for_def
    by (simp add: format_scan_literal [OF prompt_before_plain] format_scan_text_field emit_def)
qed

subsection \<open>The loop\<close>

lemma loop_events_Nil [simp]: "loop_events settings j [] = []"
  by (simp add: loop_events_def)

lemma loop_events_Cons:
  "loop_events settings j (t # ts) = row_events settings (j, t) @ loop_events settings (Suc j) ts"
  by (simp add: loop_events_def)

lemma service_replies_length:
  "service_replies model settings s prompts = (replies, failure, s') \<Longrightarrow>
   attempted replies failure \<le> length prompts \<and> (failure = None \<longrightarrow> length replies = length prompts)"
  by (induction prompts arbitrary: s replies)
     (auto simp: attempted_def split: prod.splits sum.splits option.splits)

lemma translate_loop_run:
  assumes "service_replies model (safety_config w) (service w) (map prompt_for texts)
             = (replies, failure, s')"
    and "successful_translation = int (length translated_texts)"
  shows "translate_loop model texts translated_texts successful_translation w =
           ((case failure of
               None \<Rightarrow> Inr (translated_texts @ map strip replies,
                            successful_translation + int (length replies))
             | Some e \<Rightarrow> Inl e),
            w\<lparr>service := s',
              trace := trace w @ loop_events (safety_config w) (length translated_texts)
                                   (take (attempted replies failure) texts)\<rparr>)"
  using assms
proof (induction texts arbitrary: translated_texts successful_translation w replies)
  case Nil
  then show ?case by (simp add: attempted_def)
next
  case (Cons t ts)
  let ?n = "length translated_texts"
  let ?w1 = "if translated_texts \<noteq> [] \<and> successful_translation mod 100 = 0
             then print_event (Milestone successful_translation) w else w"
  have mile: "(translated_texts \<noteq> [] \<and> successful_translation mod 100 = 0)
                \<longleftrightarrow> (0 < ?n \<and> ?n mod 100 = 0)"
  proof -
    have "int ?n mod 100 = 0 \<longleftrightarrow> ?n mod 100 = 0" by presburger
    then show ?thesis using Cons.prems(2) by simp
  qed
  obtain r s1 where call: "model (service w) (prompt_for t) (safety_config w) = (r, s1)"
    by (cases "model (service w) (prompt_for t) (safety_config w)")
  show ?case
  proof (cases r)
    case (Inl e)
    with Cons.prems call have "replies = []" "failure = Some e" "s' = s1"
      by auto
    then show ?thesis
      using call Inl mile Cons.prems(2)
      by (simp add: py_format_example_prompt generate_content_def print_event_def
          attempted_def loop_events_Cons row_events_def)
  next
    case (Inr reply)
    obtain rest where rest: "service_replies model (safety_config w) s1 (map prompt_for ts)
                               = (rest, failure, s')" and replies: "replies = reply # rest"
      using Cons.prems(1) call Inr by (auto split: prod.splits)
    let ?w2 = "?w1\<lparr>service := s1, trace := trace ?w1 @ [Request (prompt_for t) (safety_config w)]\<rparr>"
    have step: "translate_loop model (t # ts) translated_texts successful_translation w
                  = translate_loop model ts (translated_texts @ [strip reply])
                      (successful_translation + 1) ?w2"
      using call Inr
      by (simp add: py_format_example_prompt generate_content_def print_event_def)
    have ih: "translate_loop model ts (translated_texts @ [strip reply])
                (successful_translation + 1) ?w2 =
              ((case failure of
                  None \<Rightarrow> Inr ((translated_texts @ [strip reply]) @ map strip rest,
                               (successful_translation + 1) + int (length rest))
                | Some e \<Rightarrow> Inl e),
               ?w2\<lparr>service := s',
                 trace := trace ?w2 @ loop_events (safety_config ?w2)
                            (length (translated_texts @ [strip reply]))
                            (take (attempted rest failure) ts)\<rparr>)"
      by (rule Cons.IH) (use rest Cons.prems(2) in \<open>simp_all add: print_event_def\<close>)
    have att: "attempted (reply # rest) failure = Suc (attempted rest failure)"
      by (simp add: attempted_def split: option.splits)
    show ?thesis
      unfolding step ih replies att using mile Cons.prems(2)
      by (simp add: loop_events_Cons row_events_def print_event_def split: option.splits)
  qed
qed

subsection \<open>The whole call\<close>

lemma new_events_append [simp]:
  "trace w' = trace w @ es \<Longrightarrow> new_events w w' = es"
  by (simp add: new_events_def)

lemma translate_column_run:
  assumes "df_columns (frames w df) column_name = Some col"
    and "service_replies model (safety_config w) (service w) (map prompt_for col)
           = (replies, failure, s')"
  shows "translate_column df column_name model w =
           (case failure of
              None \<Rightarrow>
                (pd_Series (map strip replies) (df_index (frames w df)),
                 w\<lparr>service := s',
                   trace := trace w @ loop_events (safety_config w) 0 col
                              @ [Final (int (length col))]\<rparr>)
            | Some e \<Rightarrow>
                (Inl e,
                 w\<lparr>service := s',
                   trace := trace w @ loop_events (safety_config w) 0
                                        (take (Suc (length replies)) col)\<rparr>))"
proof -
  have len: "failure = None \<Longrightarrow> length replies = length col"
    using service_replies_length [OF assms(2)] by simp
  show ?thesis
    using translate_loop_run [OF assms(2), of 0 "[]"] len
    by (simp add: translate_column_def getitem_def assms(1) print_event_def attempted_def
        split: option.splits)
qed

subsection \<open>Reading the trace\<close>

lemma requests_append [simp]: "requests (xs @ ys) = requests xs @ requests ys"
  by (induction xs rule: requests.induct) simp_all

lemma notifications_append [simp]:
  "notifications (xs @ ys) = notifications xs @ notifications ys"
  by (induction xs rule: notifications.induct) simp_all

lemma stdout_append [simp]: "stdout (xs @ ys) = stdout xs @ stdout ys"
  by (induction xs rule: stdout.induct) simp_all

lemma requests_loop_events:
  "requests (loop_events settings j texts) = map prompt_for texts"
  by (induction texts arbitrary: j) (simp_all add: loop_events_Cons row_events_def)

lemma notifications_loop_events:
  "notifications (loop_events settings j texts)
     = map (\<lambda>c. Milestone (int c)) (milestone_counts j (length texts))"
proof (induction texts arbitrary: j)
  case Nil
  show ?case by (simp add: milestone_counts_def)
next
  case (Cons t ts)
  have "j < j + length (t # ts)" by simp
  then have "[j..<j + length (t # ts)] = j # [Suc j..<j + length (t # ts)]"
    by (rule upt_conv_Cons)
  then have "[j..<j + length (t # ts)] = j # [Suc j..<Suc j + length ts]"
    by simp
  then show ?case
    by (simp add: loop_events_Cons row_events_def Cons.IH milestone_counts_def)
qed

lemma request_settings_loop_events:
  "Request p c \<in> set (loop_events settings j texts) \<Longrightarrow> c = settings"
  by (induction texts arbitrary: j) (auto simp: loop_events_Cons row_events_def split: if_splits)

lemma final_not_in_loop_events: "Final n \<notin> set (loop_events settings j texts)"
  by (induction texts arbitrary: j) (auto simp: loop_events_Cons row_events_def)

lemma milestone_position:
  "Milestone c \<in> set (loop_events settings j texts) \<Longrightarrow>
   0 < c \<and> c mod 100 = 0 \<and> j \<le> nat c \<and> nat c < j + length texts \<and>
   (\<exists>pre post. loop_events settings j texts
        = pre @ Milestone c # Request (prompt_for (texts ! (nat c - j))) settings # post
      \<and> length (requests pre) = nat c - j)"
proof (induction texts arbitrary: j)
  case Nil
  then show ?case by simp
next
  case (Cons t ts)
  show ?case
  proof (cases "c = int j \<and> 0 < j \<and> j mod 100 = 0")
    case True
    then have "loop_events settings j (t # ts)
        = [] @ Milestone c # Request (prompt_for ((t # ts) ! (nat c - j))) settings
            # loop_events settings (Suc j) ts"
      by (simp add: loop_events_Cons row_events_def)
    moreover have "c mod 100 = 0" using True by presburger
    ultimately show ?thesis using True by (intro conjI exI[of _ "[]"] exI) auto
  next
    case False
    then have "Milestone c \<in> set (loop_events settings (Suc j) ts)"
      using Cons.prems by (auto simp: loop_events_Cons row_events_def split: if_splits)
    from Cons.IH [OF this] obtain pre post where
      b: "0 < c" "c mod 100 = 0" "Suc j \<le> nat c" "nat c < Suc j + length ts"
      and e: "loop_events settings (Suc j) ts
                = pre @ Milestone c # Request (prompt_for (ts ! (nat c - Suc j))) settings # post"
      and l: "length (requests pre) = nat c - Suc j"
      by auto
    have suc: "nat c - j = Suc (nat c - Suc j)"
      using b(3) by arith
    then have nth: "(t # ts) ! (nat c - j) = ts ! (nat c - Suc j)"
      by simp
    have "loop_events settings j (t # ts)
            = (row_events settings (j, t) @ pre) @ Milestone c
                # Request (prompt_for ((t # ts) ! (nat c - j))) settings # post"
      unfolding nth by (simp add: loop_events_Cons e)
    moreover have "length (requests (row_events settings (j, t))) = 1"
      by (simp add: row_events_def)
    then have "length (requests (row_events settings (j, t) @ pre)) = nat c - j"
      using l suc by simp
    ultimately show ?thesis using b by (intro conjI exI[of _ "row_events settings (j, t) @ pre"] exI[of _ post]) auto
  qed
qed

subsection \<open>The example data\<close>

lemma wf_example_frame: "wf_frame (example_frame col)"
  by (simp add: wf_frame_def example_frame_def ran_def)

lemma example_world_simps [simp]:
  "frames (example_world col) a = example_frame col"
  "service (example_world col) = 0"
  "trace (example_world col) = []"
  by (simp_all add: example_world_def define_safety_settings_def)

lemma example_column [simp]:
  "df_columns (example_frame col) (ascii ''comment_text'') = Some col"
  "df_index (example_frame col) = [0..<length col]"
  by (simp_all add: example_frame_def)

lemma strip_example_reply: "strip example_reply = ascii ''It is  fine.''"
  by (simp add: strip_def lstrip_def rstrip_def example_reply_def ascii_def py_isspace_def)

lemma steady_replies:
  "service_replies steady_model settings s prompts
     = (replicate (length prompts) example_reply, None, s + length prompts)"
  by (induction prompts arbitrary: s) (simp_all add: steady_model_def)

subsection \<open>Successful runs\<close>

text \<open>
  C1. When the frame is well formed, has the column, and the service answers every row's
  prompt, \<open>translate_column\<close> returns a series whose values are the stripped replies,
  reply \<open>i\<close> being the answer to the prompt of row \<open>i\<close>, and whose index is the frame's:
  as many values as rows, one request per row, in row order.
\<close>

theorem translate_column_success:
  assumes "wf_frame (frames w df)"
    and "df_columns (frames w df) column_name = Some col"
    and "service_replies model (safety_config w) (service w) (map prompt_for col)
           = (replies, None, s')"
  shows "fst (translate_column df column_name model w)
           = Inr \<lparr>sr_values = map strip replies, sr_index = df_index (frames w df)\<rparr>
         \<and> length replies = length col
         \<and> length (map strip replies) = length (df_index (frames w df))
         \<and> requests (new_events w (snd (translate_column df column_name model w)))
             = map prompt_for col"
proof -
  have len: "length replies = length col"
    using service_replies_length [OF assms(3)] by simp
  have idx: "length col = length (df_index (frames w df))"
    using assms(1,2) by (auto simp: wf_frame_def ran_def)
  show ?thesis
    using translate_column_run [OF assms(2,3)] len idx
    by (simp add: pd_Series_def requests_loop_events)
qed

theorem translate_column_success_witness:
  "fst (translate_column 0 (ascii ''comment_text'') steady_model
          (example_world [ascii ''a'', [], ascii ''b c'']))
     = Inr \<lparr>sr_values = [ascii ''It is  fine.'', ascii ''It is  fine.'', ascii ''It is  fine.''],
            sr_index = [0, 1, 2]\<rparr>"
proof -
  let ?col = "[ascii ''a'', [], ascii ''b c'']"
  have s: "strip example_reply = ascii ''It is  fine.''"
    by (simp add: strip_def lstrip_def rstrip_def example_reply_def ascii_def py_isspace_def)
  have "service_replies steady_model (safety_config (example_world ?col))
          (service (example_world ?col)) (map prompt_for ?col)
          = ([example_reply, example_reply, example_reply], None, 3)"
    unfolding steady_replies by (simp add: numeral_3_eq_3)
  from translate_column_success [OF _ _ this, of 0 "ascii ''comment_text''"]
  show ?thesis
    by (simp add: wf_example_frame s numeral_3_eq_3 upt_rec)
qed

subsection \<open>Stripping\<close>

lemma rstrip_split: "s = rstrip s @ rev (takeWhile py_isspace (rev s))"
proof -
  have "rstrip s @ rev (takeWhile py_isspace (rev s))
          = rev (takeWhile py_isspace (rev s) @ dropWhile py_isspace (rev s))"
    unfolding rstrip_def by (rule rev_append [symmetric])
  also have "\<dots> = s"
    unfolding takeWhile_dropWhile_id by (rule rev_rev_ident)
  finally show ?thesis by (rule sym)
qed

lemma strip_split:
  "s = takeWhile py_isspace s @ strip s
         @ rev (takeWhile py_isspace (rev (lstrip s)))"
proof -
  have "s = takeWhile py_isspace s @ lstrip s"
    by (simp add: lstrip_def)
  also have "lstrip s = strip s @ rev (takeWhile py_isspace (rev (lstrip s)))"
    unfolding strip_def by (rule rstrip_split)
  finally show ?thesis .
qed

lemma rstrip_last: "rstrip s \<noteq> [] \<Longrightarrow> \<not> py_isspace (last (rstrip s))"
  by (simp add: rstrip_def last_rev hd_dropWhile)

lemma lstrip_hd: "lstrip s \<noteq> [] \<Longrightarrow> \<not> py_isspace (hd (lstrip s))"
  by (simp add: lstrip_def hd_dropWhile)

lemma rstrip_hd: "rstrip s \<noteq> [] \<Longrightarrow> hd (rstrip s) = hd s"
  using rstrip_split [of s] by (metis hd_append2)

lemma strip_ends:
  "strip s \<noteq> [] \<Longrightarrow> \<not> py_isspace (hd (strip s)) \<and> \<not> py_isspace (last (strip s))"
proof -
  assume ne: "strip s \<noteq> []"
  then have "lstrip s \<noteq> []"
    by (auto simp: strip_def rstrip_def)
  then have "\<not> py_isspace (hd (lstrip s))" by (rule lstrip_hd)
  moreover have "hd (strip s) = hd (lstrip s)"
    using ne unfolding strip_def by (rule rstrip_hd)
  moreover have "\<not> py_isspace (last (strip s))"
    using ne unfolding strip_def by (rule rstrip_last)
  ultimately show ?thesis by simp
qed

lemma strip_fixed:
  assumes "s = [] \<or> (\<not> py_isspace (hd s) \<and> \<not> py_isspace (last s))"
  shows "strip s = s"
proof (cases s)
  case Nil
  then show ?thesis by (simp add: strip_def lstrip_def rstrip_def)
next
  case (Cons c cs)
  with assms have h: "\<not> py_isspace c" and l: "\<not> py_isspace (last s)" by auto
  have "lstrip s = s" using h Cons by (simp add: lstrip_def)
  moreover have "rev s \<noteq> []" using Cons by simp
  then have "dropWhile py_isspace (rev s) = rev s"
    using l by (cases "rev s") (auto simp: last_rev)
  then have "rstrip s = s" by (simp add: rstrip_def)
  ultimately show ?thesis by (simp add: strip_def)
qed

lemma strip_idem: "strip (strip s) = strip s"
  using strip_ends [of s] by (intro strip_fixed) blast

text \<open>
  C5. In a run where every call succeeds, the value stored for row \<open>i\<close> is the reply
  stripped once: the reply is a run of whitespace, the stored value, and a run of
  whitespace; the stored value is a contiguous part of the reply, so the whitespace inside
  it is as the service sent it; it neither begins nor ends with whitespace, and stripping
  it again changes nothing.
\<close>

theorem stored_result_trimmed:
  assumes "wf_frame (frames w df)"
    and "df_columns (frames w df) column_name = Some col"
    and "service_replies model (safety_config w) (service w) (map prompt_for col)
           = (replies, None, s')"
    and "i < length col"
  shows "\<exists>s stored. fst (translate_column df column_name model w) = Inr s
           \<and> stored = sr_values s ! i
           \<and> stored = strip (replies ! i)
           \<and> replies ! i = takeWhile py_isspace (replies ! i) @ stored
                              @ rev (takeWhile py_isspace (rev (lstrip (replies ! i))))
           \<and> (stored = [] \<or> (\<not> py_isspace (hd stored) \<and> \<not> py_isspace (last stored)))
           \<and> strip stored = stored"
proof -
  have len: "length replies = length col"
    using service_replies_length [OF assms(3)] by simp
  have idx: "length col = length (df_index (frames w df))"
    using assms(1,2) by (auto simp: wf_frame_def ran_def)
  have res: "fst (translate_column df column_name model w)
               = Inr \<lparr>sr_values = map strip replies, sr_index = df_index (frames w df)\<rparr>"
    using translate_column_run [OF assms(2,3)] len idx by (simp add: pd_Series_def)
  have nth: "map strip replies ! i = strip (replies ! i)"
    using assms(4) len by simp
  show ?thesis
    unfolding res using nth strip_split [of "replies ! i"] strip_ends [of "replies ! i"]
      strip_idem [of "replies ! i"]
    by auto
qed

theorem stored_result_trimmed_witness:
  "\<exists>s. fst (translate_column 0 (ascii ''comment_text'') steady_model
              (example_world [ascii ''a'', [], ascii ''b c''])) = Inr s
       \<and> sr_values s ! 1 = ascii ''It is  fine.''
       \<and> example_reply = ascii '' \<newline>'' @ sr_values s ! 1 @ ascii ''\<newline> ''"
proof -
  let ?col = "[ascii ''a'', [], ascii ''b c'']"
  have s: "strip example_reply = ascii ''It is  fine.''"
    by (simp add: strip_def lstrip_def rstrip_def example_reply_def ascii_def py_isspace_def)
  have r: "service_replies steady_model (safety_config (example_world ?col))
          (service (example_world ?col)) (map prompt_for ?col)
          = ([example_reply, example_reply, example_reply], None, 3)"
    unfolding steady_replies by (simp add: numeral_3_eq_3)
  have "wf_frame (frames (example_world ?col) 0)"
    by (simp add: wf_example_frame)
  from stored_result_trimmed [OF this _ r, of "ascii ''comment_text''" 1]
  obtain sr where "fst (translate_column 0 (ascii ''comment_text'') steady_model
              (example_world ?col)) = Inr sr" and "sr_values sr ! 1 = strip example_reply"
    by auto
  then show ?thesis
    unfolding s by (intro exI[of _ sr]) (simp add: example_reply_def ascii_def)
qed

subsection \<open>Failing runs\<close>

lemma loop_events_append:
  "loop_events settings j (xs @ ys)
     = loop_events settings j xs @ loop_events settings (j + length xs) ys"
  by (induction xs arbitrary: j) (simp_all add: loop_events_Cons)

lemma failing_replies:
  "service_replies (failing_model 1) settings 0 [p0, p1, p2]
     = ([example_reply], Some (ServiceError 429), 2)"
  by (simp add: failing_model_def)

text \<open>
  C2. When the service fails with \<open>e\<close> on row \<open>k\<close>, after answering rows \<open>0, \<dots>, k - 1\<close>,
  \<open>translate_column\<close> ends with \<open>e\<close> and returns no series. The requests it sent are
  those of rows \<open>0, \<dots>, k\<close>, once each and in order, the failing one last: no row was
  retried or skipped and none after \<open>k\<close> was tried. It leaves the state as it was but for
  the service's own state and the trace; no final notification is printed, and no frame
  holds the translations made so far.
\<close>

theorem translate_column_failure:
  assumes "df_columns (frames w df) column_name = Some col"
    and "service_replies model (safety_config w) (service w) (map prompt_for col)
           = (replies, Some e, s')"
    and "k = length replies"
  shows "k < length col
         \<and> translate_column df column_name model w
             = (Inl e, w\<lparr>service := s',
                         trace := trace w @ loop_events (safety_config w) 0 (take (Suc k) col)\<rparr>)
         \<and> requests (new_events w (snd (translate_column df column_name model w)))
             = map prompt_for (take (Suc k) col)
         \<and> last (new_events w (snd (translate_column df column_name model w)))
             = Request (prompt_for (col ! k)) (safety_config w)
         \<and> (\<forall>n. Final n \<notin> set (new_events w (snd (translate_column df column_name model w))))
         \<and> frames (snd (translate_column df column_name model w)) = frames w"
proof -
  have k: "k < length col"
    using service_replies_length [OF assms(2)] assms(3) by (simp add: attempted_def)
  have run: "translate_column df column_name model w
               = (Inl e, w\<lparr>service := s',
                           trace := trace w @ loop_events (safety_config w) 0 (take (Suc k) col)\<rparr>)"
    using translate_column_run [OF assms(1,2)] assms(3) by simp
  have "take (Suc k) col = take k col @ [col ! k]"
    using k by (rule take_Suc_conv_app_nth)
  then have "loop_events (safety_config w) 0 (take (Suc k) col)
               = loop_events (safety_config w) 0 (take k col)
                 @ row_events (safety_config w) (k, col ! k)"
    using k by (simp add: loop_events_append loop_events_Cons)
  then have lst: "last (loop_events (safety_config w) 0 (take (Suc k) col))
               = Request (prompt_for (col ! k)) (safety_config w)"
    by (simp add: row_events_def)
  show ?thesis
    unfolding run using k lst
    by (simp add: requests_loop_events final_not_in_loop_events)
qed

theorem translate_column_failure_witness:
  "translate_column 0 (ascii ''comment_text'') (failing_model 1)
          (example_world [ascii ''a'', [], ascii ''b c''])
     = (Inl (ServiceError 429),
        (example_world [ascii ''a'', [], ascii ''b c''])
          \<lparr>service := 2,
           trace := [Request (prompt_for (ascii ''a''))
                       (safety_config (example_world [ascii ''a'', [], ascii ''b c''])),
                     Request (prompt_for [])
                       (safety_config (example_world [ascii ''a'', [], ascii ''b c'']))]\<rparr>)"
proof -
  let ?col = "[ascii ''a'', [], ascii ''b c'']"
  have r: "service_replies (failing_model 1) (safety_config (example_world ?col))
          (service (example_world ?col)) (map prompt_for ?col)
          = ([example_reply], Some (ServiceError 429), 2)"
    using failing_replies by simp
  from translate_column_failure [OF _ r, of 0 "ascii ''comment_text''" 1]
  show ?thesis
    by (simp add: loop_events_Cons row_events_def)
qed

subsection \<open>The empty column\<close>

text \<open>
  C10. On a well-formed frame whose column has no rows, \<open>translate_column\<close> sends no
  request (the service's state is untouched), prints no milestone, prints the final
  notification once, citing 0, and returns the empty series on the frame's empty index.
\<close>

theorem translate_column_empty:
  assumes "wf_frame (frames w df)"
    and "df_columns (frames w df) column_name = Some []"
  shows "translate_column df column_name model w
           = (Inr \<lparr>sr_values = [], sr_index = []\<rparr>, w\<lparr>trace := trace w @ [Final 0]\<rparr>)
         \<and> df_index (frames w df) = []
         \<and> requests (new_events w (snd (translate_column df column_name model w))) = []
         \<and> notifications (new_events w (snd (translate_column df column_name model w)))
             = [Final 0]
         \<and> stdout (new_events w (snd (translate_column df column_name model w)))
             = [ascii ''Successful translation: 0'']"
proof -
  have idx: "df_index (frames w df) = []"
    using assms by (auto simp: wf_frame_def ran_def)
  have run: "translate_column df column_name model w
           = (Inr \<lparr>sr_values = [], sr_index = []\<rparr>, w\<lparr>trace := trace w @ [Final 0]\<rparr>)"
    by (simp add: translate_column_def getitem_def assms(2) print_event_def pd_Series_def idx)
  show ?thesis
    unfolding run using idx by (simp add: notification_def str_int_def ascii_def)
qed

theorem translate_column_empty_witness:
  "translate_column 0 (ascii ''comment_text'') steady_model (example_world [])
     = (Inr \<lparr>sr_values = [], sr_index = []\<rparr>, (example_world [])\<lparr>trace := [Final 0]\<rparr>)"
  using translate_column_empty [of "example_world []" 0 "ascii ''comment_text''" steady_model]
  by (simp add: wf_example_frame)

subsection \<open>The prompts that are sent\<close>

lemma translate_column_requests:
  assumes "df_columns (frames w df) column_name = Some col"
    and "service_replies model (safety_config w) (service w) (map prompt_for col)
           = (replies, failure, s')"
  shows "requests (new_events w (snd (translate_column df column_name model w)))
           = map prompt_for (take (attempted replies failure) col)"
proof -
  have "failure = None \<Longrightarrow> length replies = length col"
    using service_replies_length [OF assms(2)] by simp
  then show ?thesis
    using translate_column_run [OF assms]
    by (simp add: requests_loop_events attempted_def split: option.splits)
qed

text \<open>
  C4. \<open>format\<close> on the template with a row's text gives the template's text before the
  placeholder, the row's text as it is, whatever code points it has, and the template's
  text after the placeholder; the template has this one placeholder and no other brace.
  These are the prompts a run sends, one for each row it reaches.
\<close>

theorem prompt_rendered_verbatim:
  assumes "df_columns (frames w df) column_name = Some col"
    and "service_replies model (safety_config w) (service w) (map prompt_for col)
           = (replies, failure, s')"
  shows "py_format example_prompt [ascii ''text'' \<mapsto> text]
           = Inr (prompt_before @ text @ prompt_after)
         \<and> example_prompt = prompt_before @ ascii ''{text}'' @ prompt_after
         \<and> 123 \<notin> set (prompt_before @ prompt_after)
         \<and> 125 \<notin> set (prompt_before @ prompt_after)
         \<and> requests (new_events w (snd (translate_column df column_name model w)))
             = map (\<lambda>text. prompt_before @ text @ prompt_after)
                 (take (attempted replies failure) col)"
proof -
  have "py_format example_prompt [ascii ''text'' \<mapsto> text]
           = Inr (prompt_before @ text @ prompt_after)"
    using py_format_example_prompt [of "text"] by (simp add: prompt_for_def)
  moreover have "123 \<notin> set (prompt_before @ prompt_after)"
    and "125 \<notin> set (prompt_before @ prompt_after)"
    using prompt_before_plain prompt_after_plain by auto
  moreover have "map prompt_for (take (attempted replies failure) col)
      = map (\<lambda>text. prompt_before @ text @ prompt_after) (take (attempted replies failure) col)"
    by (simp add: prompt_for_def)
  ultimately show ?thesis
    using example_prompt_split translate_column_requests [OF assms] by simp
qed

theorem prompt_rendered_verbatim_witness:
  "py_format example_prompt [ascii ''text'' \<mapsto> ascii ''{0}} \<newline>'' @ [0, 7, 3585]]
     = Inr (prompt_before @ (ascii ''{0}} \<newline>'' @ [0, 7, 3585]) @ prompt_after)
   \<and> requests (new_events (example_world [ascii ''{0}} \<newline>'' @ [0, 7, 3585]])
        (snd (translate_column 0 (ascii ''comment_text'') steady_model
               (example_world [ascii ''{0}} \<newline>'' @ [0, 7, 3585]]))))
     = [prompt_before @ (ascii ''{0}} \<newline>'' @ [0, 7, 3585]) @ prompt_after]"
proof -
  let ?t = "ascii ''{0}} \<newline>'' @ [0, 7, 3585]"
  have r: "service_replies steady_model (safety_config (example_world [?t]))
          (service (example_world [?t])) (map prompt_for [?t])
          = ([example_reply], None, 1)"
    unfolding steady_replies by simp
  from prompt_rendered_verbatim [OF _ r, of 0 "ascii ''comment_text''" ?t]
  show ?thesis
    by (simp add: attempted_def)
qed

text \<open>
  C6. The prompt sent for a row depends on the row's text alone: two rows with the same
  text, in the same run or in two runs from different states and with different
  services, get the same prompt.
\<close>

theorem prompt_rendering_deterministic:
  assumes "df_columns (frames w1 df1) name1 = Some col1"
    and "service_replies model1 (safety_config w1) (service w1) (map prompt_for col1)
           = (replies1, failure1, s1)"
    and "df_columns (frames w2 df2) name2 = Some col2"
    and "service_replies model2 (safety_config w2) (service w2) (map prompt_for col2)
           = (replies2, failure2, s2)"
    and "i < attempted replies1 failure1"
    and "j < attempted replies2 failure2"
    and "col1 ! i = col2 ! j"
  shows "requests (new_events w1 (snd (translate_column df1 name1 model1 w1))) ! i
         = requests (new_events w2 (snd (translate_column df2 name2 model2 w2))) ! j
       \<and> py_format example_prompt [ascii ''text'' \<mapsto> col1 ! i]
         = Inr (requests (new_events w1 (snd (translate_column df1 name1 model1 w1))) ! i)"
proof -
  have a1: "attempted replies1 failure1 \<le> length col1"
    using service_replies_length [OF assms(2)] by simp
  have a2: "attempted replies2 failure2 \<le> length col2"
    using service_replies_length [OF assms(4)] by simp
  have "requests (new_events w1 (snd (translate_column df1 name1 model1 w1))) ! i
          = prompt_for (col1 ! i)"
    unfolding translate_column_requests [OF assms(1,2)] using assms(5) a1 by simp
  moreover have "requests (new_events w2 (snd (translate_column df2 name2 model2 w2))) ! j
          = prompt_for (col2 ! j)"
    unfolding translate_column_requests [OF assms(3,4)] using assms(6) a2 by simp
  ultimately show ?thesis
    using assms(7) by (simp add: py_format_example_prompt)
qed

theorem prompt_rendering_deterministic_witness:
  "requests (new_events (example_world [ascii ''a'', [], ascii ''a''])
      (snd (translate_column 0 (ascii ''comment_text'') steady_model
             (example_world [ascii ''a'', [], ascii ''a''])))) ! 2
   = requests (new_events (example_world [ascii ''b'', ascii ''a'', []])
      (snd (translate_column 0 (ascii ''comment_text'') (failing_model 1)
             (example_world [ascii ''b'', ascii ''a'', []])))) ! 1"
proof -
  let ?c1 = "[ascii ''a'', [], ascii ''a'']"
  let ?c2 = "[ascii ''b'', ascii ''a'', []]"
  have r1: "service_replies steady_model (safety_config (example_world ?c1))
          (service (example_world ?c1)) (map prompt_for ?c1)
          = ([example_reply, example_reply, example_reply], None, 3)"
    unfolding steady_replies by (simp add: numeral_3_eq_3)
  have r2: "service_replies (failing_model 1) (safety_config (example_world ?c2))
          (service (example_world ?c2)) (map prompt_for ?c2)
          = ([example_reply], Some (ServiceError 429), 2)"
    using failing_replies by simp
  from prompt_rendering_deterministic [OF _ r1 _ r2, of 0 "ascii ''comment_text''"
      0 "ascii ''comment_text''" 2 1]
  show ?thesis
    by (simp add: attempted_def)
qed

subsection \<open>What a call leaves alone\<close>

lemma new_events_same [simp]: "new_events w w = []"
  by (simp add: new_events_def)

lemma translate_column_missing:
  "df_columns (frames w df) column_name = None \<Longrightarrow>
   translate_column df column_name model w = (Inl (KeyError column_name), w)"
  by (simp add: translate_column_def getitem_def)

lemma translate_column_frame:
  "frames (snd (translate_column df column_name model w)) = frames w
   \<and> next_frame (snd (translate_column df column_name model w)) = next_frame w
   \<and> safety_config (snd (translate_column df column_name model w)) = safety_config w"
proof (cases "df_columns (frames w df) column_name")
  case None
  then show ?thesis by (simp add: translate_column_missing)
next
  case (Some col)
  obtain replies failure s' where
    "service_replies model (safety_config w) (service w) (map prompt_for col)
       = (replies, failure, s')"
    by (cases "service_replies model (safety_config w) (service w) (map prompt_for col)")
  from translate_column_run [OF Some this] show ?thesis
    by (simp split: option.splits)
qed

lemma translate_column_index:
  assumes "fst (translate_column df column_name model w) = Inr s"
  shows "sr_index s = df_index (frames w df)"
proof (cases "df_columns (frames w df) column_name")
  case None
  then show ?thesis using assms by (simp add: translate_column_missing)
next
  case (Some col)
  obtain replies failure s' where
    "service_replies model (safety_config w) (service w) (map prompt_for col)
       = (replies, failure, s')"
    by (cases "service_replies model (safety_config w) (service w) (map prompt_for col)")
  from translate_column_run [OF Some this] assms show ?thesis
    by (auto simp: pd_Series_def split: option.splits if_splits)
qed

lemma recording_replies:
  "service_replies model settings s prompts = (replies, failure, s') \<Longrightarrow>
   service_replies (recording model) settings (s, received) prompts
     = (replies, failure, (s', received @ replicate (attempted replies failure) settings))"
proof (induction prompts arbitrary: s received replies)
  case Nil
  then show ?case by (simp add: attempted_def)
next
  case (Cons p ps)
  obtain r s1 where call: "model s p settings = (r, s1)"
    by (cases "model s p settings")
  show ?case
  proof (cases r)
    case (Inl e)
    with Cons.prems call show ?thesis
      by (auto simp: recording_def attempted_def)
  next
    case (Inr reply)
    with Cons.prems call obtain rest where
      rest: "service_replies model settings s1 ps = (rest, failure, s')"
      and replies: "replies = reply # rest"
      by (auto split: prod.splits)
    have "attempted (reply # rest) failure = Suc (attempted rest failure)"
      by (simp add: attempted_def split: option.splits)
    then show ?thesis
      using Cons.IH [OF rest, of "received @ [settings]"] call Inr
      by (simp add: recording_def replies replicate_app_Cons_same)
  qed
qed

lemma with_recorder_simps [simp]:
  "frames (with_recorder w) = frames w"
  "safety_config (with_recorder w) = safety_config w"
  "service (with_recorder w) = (service w, [])"
  "trace (with_recorder w) = trace w"
  by (simp_all add: with_recorder_def)

lemma define_safety_settings_simps:
  "frames (define_safety_settings w) = frames w"
  "service (define_safety_settings w) = service w"
  "trace (define_safety_settings w) = trace w"
  "safety_config (define_safety_settings w)
     = [\<lparr>category = HARM_CATEGORY_DANGEROUS_CONTENT, threshold = BLOCK_NONE\<rparr>,
        \<lparr>category = HARM_CATEGORY_HARASSMENT, threshold = BLOCK_NONE\<rparr>,
        \<lparr>category = HARM_CATEGORY_HATE_SPEECH, threshold = BLOCK_NONE\<rparr>,
        \<lparr>category = HARM_CATEGORY_SEXUALLY_EXPLICIT, threshold = BLOCK_NONE\<rparr>]"
  by (simp_all add: define_safety_settings_def)

lemma translate_column_settings_received:
  assumes "df_columns (frames w df) column_name = Some col"
    and "service_replies model (safety_config w) (service w) (map prompt_for col)
           = (replies, failure, s')"
  shows "service (snd (translate_column df column_name model w)) = s'"
    and "fst (translate_column df column_name model w)
           = (case failure of
                None \<Rightarrow> pd_Series (map strip replies) (df_index (frames w df))
              | Some e \<Rightarrow> Inl e)"
    and "service (snd (translate_column df column_name (recording model) (with_recorder w)))
           = (s', replicate (attempted replies failure) (safety_config w))"
    and "fst (translate_column df column_name (recording model) (with_recorder w))
           = fst (translate_column df column_name model w)"
proof -
  have plain: "translate_column df column_name model w =
           (case failure of
              None \<Rightarrow>
                (pd_Series (map strip replies) (df_index (frames w df)),
                 w\<lparr>service := s',
                   trace := trace w @ loop_events (safety_config w) 0 col
                              @ [Final (int (length col))]\<rparr>)
            | Some e \<Rightarrow>
                (Inl e,
                 w\<lparr>service := s',
                   trace := trace w @ loop_events (safety_config w) 0
                                        (take (Suc (length replies)) col)\<rparr>))"
    by (rule translate_column_run [OF assms])
  have "service_replies (recording model) (safety_config (with_recorder w))
          (service (with_recorder w)) (map prompt_for col)
          = (replies, failure, (s', replicate (attempted replies failure) (safety_config w)))"
    using recording_replies [OF assms(2), of "[]"] by simp
  from translate_column_run [OF _ this, of df column_name]
  have rec: "translate_column df column_name (recording model) (with_recorder w) =
           (case failure of
              None \<Rightarrow>
                (pd_Series (map strip replies) (df_index (frames (with_recorder w) df)),
                 (with_recorder w)\<lparr>service :=
                     (s', replicate (attempted replies failure) (safety_config w)),
                   trace := trace (with_recorder w)
                              @ loop_events (safety_config (with_recorder w)) 0 col
                              @ [Final (int (length col))]\<rparr>)
            | Some e \<Rightarrow>
                (Inl e,
                 (with_recorder w)\<lparr>service :=
                     (s', replicate (attempted replies failure) (safety_config w)),
                   trace := trace (with_recorder w)
                              @ loop_events (safety_config (with_recorder w)) 0
                                  (take (Suc (length replies)) col)\<rparr>))"
    using assms(1) by simp
  show "service (snd (translate_column df column_name model w)) = s'"
    unfolding plain by (cases failure) simp_all
  show "fst (translate_column df column_name model w)
           = (case failure of
                None \<Rightarrow> pd_Series (map strip replies) (df_index (frames w df))
              | Some e \<Rightarrow> Inl e)"
    unfolding plain by (cases failure) simp_all
  show "service (snd (translate_column df column_name (recording model) (with_recorder w)))
           = (s', replicate (attempted replies failure) (safety_config w))"
    unfolding rec by (cases failure) simp_all
  show "fst (translate_column df column_name (recording model) (with_recorder w))
           = fst (translate_column df column_name model w)"
    unfolding rec plain by (cases failure) simp_all
qed

text \<open>
  C8. In every run the service is called with the value the global \<open>safety_config\<close> had
  when the run began, and the run leaves the global as it was: the service's replies and
  the state it ends in are those it gives when asked with that value at each call; a
  service that keeps the settings of the calls it receives ends with that value once for
  each row reached, and nothing else; the requests in the trace carry it. In a run that
  starts after the settings cell, the value received at every call is the list built
  there: the four harm categories (dangerous content, harassment, hate speech, sexually
  explicit), each with the threshold that blocks nothing.
\<close>

theorem safety_settings_static:
  "(\<forall>prompt settings.
      Request prompt settings
        \<in> set (new_events w (snd (translate_column df column_name model w)))
      \<longrightarrow> settings = safety_config w)
   \<and> safety_config (snd (translate_column df column_name model w)) = safety_config w
   \<and> (df_columns (frames w df) column_name = None
        \<longrightarrow> service (snd (translate_column df column_name (recording model)
                              (with_recorder w)))
              = (service w, []))
   \<and> (df_columns (frames w df) column_name = Some col
        \<and> service_replies model (safety_config w) (service w) (map prompt_for col)
            = (replies, failure, s')
        \<longrightarrow> service (snd (translate_column df column_name model w)) = s'
          \<and> fst (translate_column df column_name model w)
              = (case failure of
                   None \<Rightarrow> pd_Series (map strip replies) (df_index (frames w df))
                 | Some e \<Rightarrow> Inl e)
          \<and> service (snd (translate_column df column_name (recording model)
                              (with_recorder w)))
              = (s', replicate (attempted replies failure) (safety_config w))
          \<and> fst (translate_column df column_name (recording model) (with_recorder w))
              = fst (translate_column df column_name model w))
   \<and> (df_columns (frames w df) column_name = Some col
        \<and> service_replies model
             [\<lparr>category = HARM_CATEGORY_DANGEROUS_CONTENT, threshold = BLOCK_NONE\<rparr>,
              \<lparr>category = HARM_CATEGORY_HARASSMENT, threshold = BLOCK_NONE\<rparr>,
              \<lparr>category = HARM_CATEGORY_HATE_SPEECH, threshold = BLOCK_NONE\<rparr>,
              \<lparr>category = HARM_CATEGORY_SEXUALLY_EXPLICIT, threshold = BLOCK_NONE\<rparr>]
             (service w) (map prompt_for col)
            = (replies0, failure0, s0)
        \<longrightarrow> service (snd (translate_column df column_name (recording model)
                              (with_recorder (define_safety_settings w))))
              = (s0, replicate (attempted replies0 failure0)
                       [\<lparr>category = HARM_CATEGORY_DANGEROUS_CONTENT, threshold = BLOCK_NONE\<rparr>,
                        \<lparr>category = HARM_CATEGORY_HARASSMENT, threshold = BLOCK_NONE\<rparr>,
                        \<lparr>category = HARM_CATEGORY_HATE_SPEECH, threshold = BLOCK_NONE\<rparr>,
                        \<lparr>category = HARM_CATEGORY_SEXUALLY_EXPLICIT,
                         threshold = BLOCK_NONE\<rparr>])
          \<and> fst (translate_column df column_name (recording model)
                    (with_recorder (define_safety_settings w)))
              = (case failure0 of
                   None \<Rightarrow> pd_Series (map strip replies0) (df_index (frames w df))
                 | Some e \<Rightarrow> Inl e)
          \<and> safety_config (snd (translate_column df column_name (recording model)
                                    (with_recorder (define_safety_settings w))))
              = [\<lparr>category = HARM_CATEGORY_DANGEROUS_CONTENT, threshold = BLOCK_NONE\<rparr>,
                 \<lparr>category = HARM_CATEGORY_HARASSMENT, threshold = BLOCK_NONE\<rparr>,
                 \<lparr>category = HARM_CATEGORY_HATE_SPEECH, threshold = BLOCK_NONE\<rparr>,
                 \<lparr>category = HARM_CATEGORY_SEXUALLY_EXPLICIT, threshold = BLOCK_NONE\<rparr>])"
proof -
  let ?policy = "[\<lparr>category = HARM_CATEGORY_DANGEROUS_CONTENT, threshold = BLOCK_NONE\<rparr>,
                  \<lparr>category = HARM_CATEGORY_HARASSMENT, threshold = BLOCK_NONE\<rparr>,
                  \<lparr>category = HARM_CATEGORY_HATE_SPEECH, threshold = BLOCK_NONE\<rparr>,
                  \<lparr>category = HARM_CATEGORY_SEXUALLY_EXPLICIT, threshold = BLOCK_NONE\<rparr>]"
  have label: "settings = safety_config w"
    if "Request prompt settings
          \<in> set (new_events w (snd (translate_column df column_name model w)))"
    for prompt settings
  proof (cases "df_columns (frames w df) column_name")
    case None
    then show ?thesis using that by (simp add: translate_column_missing)
  next
    case (Some c)
    obtain rs f t where
      "service_replies model (safety_config w) (service w) (map prompt_for c) = (rs, f, t)"
      by (cases "service_replies model (safety_config w) (service w) (map prompt_for c)")
    from translate_column_run [OF Some this] that show ?thesis
      by (auto split: option.splits dest: request_settings_loop_events)
  qed
  have same: "safety_config (snd (translate_column df column_name model w)) = safety_config w"
    using translate_column_frame [of df column_name model w] by simp
  have missing: "service (snd (translate_column df column_name (recording model)
                                 (with_recorder w))) = (service w, [])"
    if "df_columns (frames w df) column_name = None"
    using that by (simp add: translate_column_missing)
  have general:
    "service (snd (translate_column df column_name model w)) = s'
     \<and> fst (translate_column df column_name model w)
         = (case failure of
              None \<Rightarrow> pd_Series (map strip replies) (df_index (frames w df))
            | Some e \<Rightarrow> Inl e)
     \<and> service (snd (translate_column df column_name (recording model) (with_recorder w)))
         = (s', replicate (attempted replies failure) (safety_config w))
     \<and> fst (translate_column df column_name (recording model) (with_recorder w))
         = fst (translate_column df column_name model w)"
    if "df_columns (frames w df) column_name = Some col"
      and "service_replies model (safety_config w) (service w) (map prompt_for col)
             = (replies, failure, s')"
    using translate_column_settings_received [OF that] by simp
  have startup:
    "service (snd (translate_column df column_name (recording model)
                     (with_recorder (define_safety_settings w))))
       = (s0, replicate (attempted replies0 failure0) ?policy)
     \<and> fst (translate_column df column_name (recording model)
               (with_recorder (define_safety_settings w)))
         = (case failure0 of
              None \<Rightarrow> pd_Series (map strip replies0) (df_index (frames w df))
            | Some e \<Rightarrow> Inl e)
     \<and> safety_config (snd (translate_column df column_name (recording model)
                               (with_recorder (define_safety_settings w)))) = ?policy"
    if c: "df_columns (frames w df) column_name = Some col"
      and r: "service_replies model ?policy (service w) (map prompt_for col)
             = (replies0, failure0, s0)"
  proof -
    let ?w = "define_safety_settings w"
    have c': "df_columns (frames ?w df) column_name = Some col"
      using c by (simp add: define_safety_settings_simps)
    have r': "service_replies model (safety_config ?w) (service ?w) (map prompt_for col)
               = (replies0, failure0, s0)"
      using r by (simp add: define_safety_settings_simps)
    have "safety_config (snd (translate_column df column_name (recording model)
                                (with_recorder ?w))) = ?policy"
      using translate_column_frame [of df column_name "recording model" "with_recorder ?w"]
      by (simp add: define_safety_settings_simps)
    then show ?thesis
      using translate_column_settings_received [OF c' r']
      by (cases failure0) (simp_all add: define_safety_settings_simps)
  qed
  show ?thesis
    using label same missing general startup by blast
qed

theorem safety_settings_static_witness:
  "translate_column 0 (ascii ''comment_text'') policy_model
       (example_world [ascii ''a'', []]\<lparr>safety_config := []\<rparr>)
     = (Inl (ServiceError 400),
        example_world [ascii ''a'', []]
          \<lparr>safety_config := [], service := 1, trace := [Request (prompt_for (ascii ''a'')) []]\<rparr>)
   \<and> fst (translate_column 0 (ascii ''comment_text'') (recording policy_model)
            (with_recorder (define_safety_settings
               (example_world [ascii ''a'', []]\<lparr>safety_config := []\<rparr>))))
     = Inr \<lparr>sr_values = [ascii ''It is  fine.'', ascii ''It is  fine.''], sr_index = [0, 1]\<rparr>
   \<and> service (snd (translate_column 0 (ascii ''comment_text'') (recording policy_model)
            (with_recorder (define_safety_settings
               (example_world [ascii ''a'', []]\<lparr>safety_config := []\<rparr>)))))
     = (2,
        [[\<lparr>category = HARM_CATEGORY_DANGEROUS_CONTENT, threshold = BLOCK_NONE\<rparr>,
          \<lparr>category = HARM_CATEGORY_HARASSMENT, threshold = BLOCK_NONE\<rparr>,
          \<lparr>category = HARM_CATEGORY_HATE_SPEECH, threshold = BLOCK_NONE\<rparr>,
          \<lparr>category = HARM_CATEGORY_SEXUALLY_EXPLICIT, threshold = BLOCK_NONE\<rparr>],
         [\<lparr>category = HARM_CATEGORY_DANGEROUS_CONTENT, threshold = BLOCK_NONE\<rparr>,
          \<lparr>category = HARM_CATEGORY_HARASSMENT, threshold = BLOCK_NONE\<rparr>,
          \<lparr>category = HARM_CATEGORY_HATE_SPEECH, threshold = BLOCK_NONE\<rparr>,
          \<lparr>category = HARM_CATEGORY_SEXUALLY_EXPLICIT, threshold = BLOCK_NONE\<rparr>]])
   \<and> service (snd (translate_column 0 (ascii ''comment_text'') (recording policy_model)
            (with_recorder (example_world [ascii ''a'', []]\<lparr>safety_config := []\<rparr>))))
     = (1, [[]])"
proof -
  let ?col = "[ascii ''a'', []]"
  let ?w = "example_world ?col\<lparr>safety_config := []\<rparr>"
  let ?policy = "[\<lparr>category = HARM_CATEGORY_DANGEROUS_CONTENT, threshold = BLOCK_NONE\<rparr>,
                  \<lparr>category = HARM_CATEGORY_HARASSMENT, threshold = BLOCK_NONE\<rparr>,
                  \<lparr>category = HARM_CATEGORY_HATE_SPEECH, threshold = BLOCK_NONE\<rparr>,
                  \<lparr>category = HARM_CATEGORY_SEXUALLY_EXPLICIT, threshold = BLOCK_NONE\<rparr>]"
  have c: "df_columns (frames ?w 0) (ascii ''comment_text'') = Some ?col"
    by simp
  have r0: "service_replies policy_model (safety_config ?w) (service ?w) (map prompt_for ?col)
             = ([], Some (ServiceError 400), 1)"
    by (simp add: policy_model_def)
  have r1: "service_replies policy_model ?policy (service ?w) (map prompt_for ?col)
             = ([example_reply, example_reply], None, 2)"
    by (simp add: policy_model_def)
  have run0: "translate_column 0 (ascii ''comment_text'') policy_model ?w
     = (Inl (ServiceError 400),
        ?w\<lparr>service := 1, trace := [Request (prompt_for (ascii ''a'')) []]\<rparr>)"
    using translate_column_run [OF c r0]
    by (simp add: loop_events_Cons row_events_def)
  from safety_settings_static [of ?w 0 "ascii ''comment_text''" policy_model ?col
      "[]" "Some (ServiceError 400)" 1 "[example_reply, example_reply]" None 2] c r0 r1
  have "service (snd (translate_column 0 (ascii ''comment_text'') (recording policy_model)
                   (with_recorder ?w))) = (1, [[]])"
    and "service (snd (translate_column 0 (ascii ''comment_text'') (recording policy_model)
            (with_recorder (define_safety_settings ?w)))) = (2, [?policy, ?policy])"
    and "fst (translate_column 0 (ascii ''comment_text'') (recording policy_model)
            (with_recorder (define_safety_settings ?w)))
         = pd_Series (map strip [example_reply, example_reply]) (df_index (frames ?w 0))"
    by (simp_all add: attempted_def numeral_2_eq_2 define_safety_settings_simps)
  then show ?thesis
    using run0 by (simp add: pd_Series_def strip_example_reply upt_rec)
qed

text \<open>
  C7. \<open>translate_column\<close> changes no DataFrame: every frame of the state, the one passed
  in among them, is after the call what it was before. In the cell that calls it on a
  deep copy and assigns the result, the caller's frame keeps its index and every column
  but \<open>english_comment_text\<close>; when the cell succeeds that column holds the values of
  the returned series, when it fails the frame is as before; the copy that was passed in
  still equals the original.
\<close>

theorem input_frame_unchanged:
  "frames (snd (translate_column df column_name model w)) = frames w
   \<and> (case translate_cell reindex df model w of
        (r, w') \<Rightarrow>
          df_index (frames w' df) = df_index (frames w df)
          \<and> (\<forall>name. name \<noteq> ascii ''english_comment_text''
                 \<longrightarrow> df_columns (frames w' df) name = df_columns (frames w df) name)
          \<and> (r \<noteq> None \<longrightarrow> frames w' df = frames w df)
          \<and> (r = None \<longrightarrow>
                (\<exists>s. fst (translate_column (next_frame w) (ascii ''comment_text'') model
                             (snd (copy_deep df w))) = Inr s
                    \<and> df_columns (frames w' df) (ascii ''english_comment_text'')
                        = Some (sr_values s)))
          \<and> (df < next_frame w \<longrightarrow> frames w' (next_frame w) = frames w df))"
proof -
  let ?w1 = "snd (copy_deep df w)"
  let ?c = "next_frame w"
  let ?run = "translate_column ?c (ascii ''comment_text'') model ?w1"
  have w1: "frames ?w1 = (frames w)(?c := frames w df)"
    by (simp add: copy_deep_def)
  have fr: "frames (snd ?run) = (frames w)(?c := frames w df)"
    using translate_column_frame [of ?c "ascii ''comment_text''" model ?w1] w1 by simp
  have same: "frames (snd ?run) df = frames w df"
    unfolding fr by simp
  have cell: "translate_cell reindex df model w =
      (case ?run of
         (Inl e, w2) \<Rightarrow> (Some e, w2)
       | (Inr s, w2) \<Rightarrow>
           (case setitem reindex (frames w2 df) (ascii ''english_comment_text'') s of
              Inl e \<Rightarrow> (Some e, w2)
            | Inr d \<Rightarrow> (None, w2\<lparr>frames := (frames w2)(df := d)\<rparr>)))"
    by (simp add: translate_cell_def copy_deep_def)
  obtain res w2 where run: "?run = (res, w2)"
    by (cases ?run)
  then have w2: "frames w2 = (frames w)(?c := frames w df)" and w2df: "frames w2 df = frames w df"
    using fr same by simp_all
  have "case translate_cell reindex df model w of
        (r, w') \<Rightarrow>
          df_index (frames w' df) = df_index (frames w df)
          \<and> (\<forall>name. name \<noteq> ascii ''english_comment_text''
                 \<longrightarrow> df_columns (frames w' df) name = df_columns (frames w df) name)
          \<and> (r \<noteq> None \<longrightarrow> frames w' df = frames w df)
          \<and> (r = None \<longrightarrow>
                (\<exists>s. fst ?run = Inr s
                    \<and> df_columns (frames w' df) (ascii ''english_comment_text'')
                        = Some (sr_values s)))
          \<and> (df < next_frame w \<longrightarrow> frames w' (next_frame w) = frames w df)"
  proof (cases res)
    case (Inl e)
    then show ?thesis
      unfolding cell run using w2 w2df by simp
  next
    case (Inr s)
    then have "sr_index s = df_index (frames ?w1 ?c)"
      using translate_column_index [of ?c "ascii ''comment_text''" model ?w1 s] run by simp
    then have "sr_index s = df_index (frames w2 df)"
      using w1 w2df by simp
    then have "setitem reindex (frames w2 df) (ascii ''english_comment_text'') s
        = Inr ((frames w2 df)\<lparr>df_columns :=
                 (df_columns (frames w2 df))(ascii ''english_comment_text'' \<mapsto> sr_values s)\<rparr>)"
      by (simp add: setitem_def)
    then show ?thesis
      unfolding cell run using Inr w2 w2df by simp
  qed
  then show ?thesis
    using translate_column_frame [of df column_name model w] by simp
qed

theorem input_frame_unchanged_witness:
  "fst (translate_cell (\<lambda>s idx. Inl ValueError) 0 steady_model
          (example_world [ascii ''a'', []])) = None
   \<and> frames (snd (translate_cell (\<lambda>s idx. Inl ValueError) 0 steady_model
                    (example_world [ascii ''a'', []]))) 0
     = \<lparr>df_index = [0, 1],
        df_columns = [ascii ''comment_text'' \<mapsto> [ascii ''a'', []],
                      ascii ''english_comment_text''
                        \<mapsto> [ascii ''It is  fine.'', ascii ''It is  fine.'']]\<rparr>
   \<and> frames (snd (translate_cell (\<lambda>s idx. Inl ValueError) 0 steady_model
                    (example_world [ascii ''a'', []]))) 1
     = example_frame [ascii ''a'', []]"
proof -
  let ?col = "[ascii ''a'', []]"
  let ?w = "example_world ?col"
  let ?w1 = "snd (copy_deep 0 ?w)"
  have s: "strip example_reply = ascii ''It is  fine.''"
    by (simp add: strip_def lstrip_def rstrip_def example_reply_def ascii_def py_isspace_def)
  have n: "next_frame ?w = 1"
    by (simp add: example_world_def define_safety_settings_def)
  have w1: "frames ?w1 1 = example_frame ?col" "service ?w1 = 0"
    by (simp_all add: copy_deep_def n)
  have r: "service_replies steady_model (safety_config ?w1) (service ?w1) (map prompt_for ?col)
           = ([example_reply, example_reply], None, 2)"
    unfolding steady_replies by (simp add: numeral_2_eq_2 w1)
  have full: "translate_column 1 (ascii ''comment_text'') steady_model ?w1
           = (Inr \<lparr>sr_values = [ascii ''It is  fine.'', ascii ''It is  fine.''],
                   sr_index = [0, 1]\<rparr>,
              ?w1\<lparr>service := 2,
                  trace := trace ?w1 @ loop_events (safety_config ?w1) 0 ?col @ [Final 2]\<rparr>)"
    using translate_column_run [OF _ r, of 1 "ascii ''comment_text''"] w1
    by (simp add: pd_Series_def s upt_rec)
  then have run: "fst (translate_column 1 (ascii ''comment_text'') steady_model ?w1)
           = Inr \<lparr>sr_values = [ascii ''It is  fine.'', ascii ''It is  fine.''],
                  sr_index = [0, 1]\<rparr>"
    by simp
  obtain r w' where c: "translate_cell (\<lambda>s idx. Inl ValueError) 0 steady_model ?w = (r, w')"
    by (cases "translate_cell (\<lambda>s idx. Inl ValueError) 0 steady_model ?w")
  have "fst (translate_cell (\<lambda>s idx. Inl ValueError) 0 steady_model ?w) = None"
    unfolding translate_cell_def using full n
    by (simp add: copy_deep_def setitem_def upt_rec)
  then have ok: "r = None"
    using c by simp
  have "df_index (frames w' 0) = [0, 1]
      \<and> (\<forall>name. name \<noteq> ascii ''english_comment_text''
             \<longrightarrow> df_columns (frames w' 0) name = df_columns (example_frame ?col) name)
      \<and> df_columns (frames w' 0) (ascii ''english_comment_text'')
          = Some [ascii ''It is  fine.'', ascii ''It is  fine.'']
      \<and> frames w' 1 = example_frame ?col"
    using input_frame_unchanged [of 0 "ascii ''comment_text''" steady_model ?w
        "\<lambda>s idx. Inl ValueError"] c ok run n
    by (simp add: upt_rec)
  then have "frames w' 0 = \<lparr>df_index = [0, 1],
        df_columns = [ascii ''comment_text'' \<mapsto> ?col,
                      ascii ''english_comment_text''
                        \<mapsto> [ascii ''It is  fine.'', ascii ''It is  fine.'']]\<rparr>
      \<and> frames w' 1 = example_frame ?col"
    by (cases "frames w' 0") (auto simp: example_frame_def fun_eq_iff)
  then show ?thesis using c ok by simp
qed

subsection \<open>Notifications\<close>

lemma translate_column_events:
  assumes "df_columns (frames w df) column_name = Some col"
    and "service_replies model (safety_config w) (service w) (map prompt_for col)
           = (replies, failure, s')"
  shows "new_events w (snd (translate_column df column_name model w))
           = loop_events (safety_config w) 0 (take (attempted replies failure) col)
             @ (case failure of None \<Rightarrow> [Final (int (length col))] | Some e \<Rightarrow> [])"
proof -
  have "failure = None \<Longrightarrow> length replies = length col"
    using service_replies_length [OF assms(2)] by simp
  then show ?thesis
    using translate_column_run [OF assms]
    by (simp add: attempted_def split: option.splits)
qed

lemma count_milestone_loop_events:
  "count_list (loop_events settings j texts) (Milestone c)
     = (if 0 < c \<and> c mod 100 = 0 \<and> int j \<le> c \<and> c < int (j + length texts) then 1 else 0)"
proof (induction texts arbitrary: j)
  case Nil
  show ?case by simp
next
  case (Cons t ts)
  have m: "int j mod 100 = 0 \<longleftrightarrow> j mod 100 = 0" by presburger
  have "count_list (row_events settings (j, t)) (Milestone c)
          = (if 0 < c \<and> c mod 100 = 0 \<and> c = int j then 1 else 0)"
    using m by (auto simp: row_events_def)
  then have "count_list (loop_events settings j (t # ts)) (Milestone c)
          = (if 0 < c \<and> c mod 100 = 0 \<and> c = int j then 1 else 0)
            + (if 0 < c \<and> c mod 100 = 0 \<and> int (Suc j) \<le> c
                  \<and> c < int (Suc j + length ts) then 1 else 0)"
    by (simp only: loop_events_Cons count_list_append Cons.IH)
  also have "\<dots> = (if 0 < c \<and> c mod 100 = 0 \<and> int j \<le> c
                       \<and> c < int (j + length (t # ts)) then 1 else 0)"
    by (cases "c = int j") auto
  finally show ?case .
qed

lemma milestone_counts_231: "milestone_counts 0 231 = [100, 200]"
  by code_simp

lemma milestone_counts_200: "milestone_counts 0 200 = [100]"
  by code_simp

lemma milestone_counts_100: "milestone_counts 0 100 = []"
  by code_simp

lemma steady_events:
  "new_events (example_world col)
     (snd (translate_column 0 (ascii ''comment_text'') steady_model (example_world col)))
   = loop_events (safety_config (example_world col)) 0 col @ [Final (int (length col))]"
proof -
  have "service_replies steady_model (safety_config (example_world col))
          (service (example_world col)) (map prompt_for col)
          = (replicate (length col) example_reply, None, length col)"
    unfolding steady_replies by simp
  from translate_column_events [OF _ this, of 0 "ascii ''comment_text''"]
  show ?thesis by (simp add: attempted_def)
qed

lemma steady_result:
  "fst (translate_column 0 (ascii ''comment_text'') steady_model (example_world col))
     = Inr \<lparr>sr_values = replicate (length col) (ascii ''It is  fine.''),
            sr_index = [0..<length col]\<rparr>"
proof -
  have "service_replies steady_model (safety_config (example_world col))
          (service (example_world col)) (map prompt_for col)
          = (replicate (length col) example_reply, None, length col)"
    unfolding steady_replies by simp
  from translate_column_run [OF _ this, of 0 "ascii ''comment_text''"]
  show ?thesis by (simp add: pd_Series_def strip_example_reply)
qed

text \<open>
  C3, as stated, fails: in a run of 100 rows that all succeed, 100 translations are
  stored, yet no milestone citing 100 is printed; the one notification of the run is the
  final one.
\<close>

theorem milestone_after_last_row_counterexample:
  "fst (translate_column 0 (ascii ''comment_text'') steady_model
          (example_world (replicate 100 [])))
     = Inr \<lparr>sr_values = replicate 100 (ascii ''It is  fine.''), sr_index = [0..<100]\<rparr>
   \<and> count_list
        (new_events (example_world (replicate 100 []))
           (snd (translate_column 0 (ascii ''comment_text'') steady_model
                  (example_world (replicate 100 [])))))
        (Milestone 100) = 0
   \<and> notifications
        (new_events (example_world (replicate 100 []))
           (snd (translate_column 0 (ascii ''comment_text'') steady_model
                  (example_world (replicate 100 []))))) = [Final 100]
   \<and> stdout
        (new_events (example_world (replicate 100 []))
           (snd (translate_column 0 (ascii ''comment_text'') steady_model
                  (example_world (replicate 100 [])))))
       = [ascii ''Successful translation: 100'']"
proof -
  have "notifications (loop_events settings 0 (replicate 100 [])) = []" for settings
    by (simp add: notifications_loop_events milestone_counts_100)
  moreover have "stdout es = []" if "notifications es = []" for es
    using that by (induction es rule: notifications.induct) simp_all
  moreover have "count_list (loop_events settings 0 (replicate 100 [])) (Milestone 100) = 0"
    for settings
    by (simp add: count_milestone_loop_events)
  moreover have "notification 100 = ascii ''Successful translation: 100''"
    by (simp add: notification_def str_int_def ascii_def)
  ultimately show ?thesis
    using steady_result [of "replicate 100 []"]
    by (simp add: steady_events)
qed

text \<open>
  C3, amended. In every run the milestones printed are, in order, one for each positive
  multiple \<open>c\<close> of 100 below the number of rows for which a request is sent, and no
  other: a milestone citing \<open>c\<close> is printed exactly once when a row after the \<open>c\<close>-th
  success is started, not at all otherwise, and it is printed after \<open>c\<close> requests. A run
  in which every call succeeds then ends with the one final notification, citing the
  number of rows.
\<close>

theorem milestone_notifications:
  assumes "df_columns (frames w df) column_name = Some col"
    and "service_replies model (safety_config w) (service w) (map prompt_for col)
           = (replies, failure, s')"
  shows "notifications (new_events w (snd (translate_column df column_name model w)))
           = map (\<lambda>c. Milestone (int c)) (milestone_counts 0 (attempted replies failure))
             @ (case failure of None \<Rightarrow> [Final (int (length col))] | Some e \<Rightarrow> [])
         \<and> (\<forall>c. count_list (new_events w (snd (translate_column df column_name model w)))
                    (Milestone c)
                  = (if 0 < c \<and> c mod 100 = 0 \<and> c < int (attempted replies failure)
                     then 1 else 0))
         \<and> (\<forall>c. Milestone c
                  \<in> set (new_events w (snd (translate_column df column_name model w)))
                \<longrightarrow> (\<exists>pre post.
                       new_events w (snd (translate_column df column_name model w))
                         = pre @ Milestone c # post
                       \<and> int (length (requests pre)) = c))"
proof -
  let ?a = "attempted replies failure"
  let ?loop = "loop_events (safety_config w) 0 (take ?a col)"
  let ?fin = "case failure of None \<Rightarrow> [Final (int (length col))] | Some e \<Rightarrow> []"
  have ev: "new_events w (snd (translate_column df column_name model w)) = ?loop @ ?fin"
    by (rule translate_column_events [OF assms])
  have a: "?a \<le> length col"
    using service_replies_length [OF assms(2)] by simp
  then have len: "length (take ?a col) = ?a" by simp
  have fin: "notifications ?fin = ?fin" "count_list ?fin (Milestone c) = 0"
    "Milestone c \<notin> set ?fin" for c
    by (simp_all split: option.splits)
  have one: "notifications (?loop @ ?fin)
           = map (\<lambda>c. Milestone (int c)) (milestone_counts 0 ?a) @ ?fin"
    by (simp only: notifications_append notifications_loop_events len fin)
  have two: "count_list (?loop @ ?fin) (Milestone c)
               = (if 0 < c \<and> c mod 100 = 0 \<and> c < int ?a then 1 else 0)" for c
    by (simp add: count_milestone_loop_events fin len del: length_take)
  have three: "\<exists>pre post. ?loop @ ?fin = pre @ Milestone c # post
                 \<and> int (length (requests pre)) = c"
    if "Milestone c \<in> set (?loop @ ?fin)" for c
  proof -
    from that have "Milestone c \<in> set ?loop"
      using fin(3) by simp
    from milestone_position [OF this] obtain pre post where
      "0 < c" and "?loop = pre @ Milestone c # post" and "length (requests pre) = nat c - 0"
      by blast
    then have "?loop @ ?fin = pre @ Milestone c # (post @ ?fin)"
      and "int (length (requests pre)) = c"
      by simp_all
    then show ?thesis by blast
  qed
  show ?thesis
    unfolding ev using one two three by blast
qed

text \<open>
  The run of the specification's example: 231 rows, every call succeeds; a milestone
  citing 100, one citing 200, and the final notification citing 231.
\<close>

theorem milestone_notifications_witness:
  "notifications
     (new_events (example_world (replicate 231 []))
        (snd (translate_column 0 (ascii ''comment_text'') steady_model
               (example_world (replicate 231 [])))))
     = [Milestone 100, Milestone 200, Final 231]
   \<and> stdout [Milestone 100, Milestone 200, Final 231]
     = [ascii ''Successful translation: 100'', ascii ''Successful translation: 200'',
        ascii ''Successful translation: 231'']"
proof -
  let ?col = "replicate 231 ([] :: pystr)"
  have r: "service_replies steady_model (safety_config (example_world ?col))
          (service (example_world ?col)) (map prompt_for ?col)
          = (replicate 231 example_reply, None, 231)"
    unfolding steady_replies by simp
  have "stdout [Milestone 100, Milestone 200, Final 231]
     = [ascii ''Successful translation: 100'', ascii ''Successful translation: 200'',
        ascii ''Successful translation: 231'']"
    by (simp add: notification_def str_int_def ascii_def)
  then show ?thesis
    using milestone_notifications [OF _ r, of 0 "ascii ''comment_text''"]
    by (simp add: attempted_def milestone_counts_231)
qed

text \<open>
  C9. A milestone citing \<open>c\<close> is printed only at the start of the iteration on row \<open>c\<close>
  (counted from 0): that row exists, \<open>c\<close> requests came before the milestone, and the
  request for row \<open>c\<close> comes right after it. So when all \<open>100 * m\<close> rows of a column
  succeed, no milestone cites \<open>100 * m\<close>; among the notifications that count is cited by
  the final one alone, once.
\<close>

theorem milestone_only_before_next_row:
  assumes "df_columns (frames w df) column_name = Some col"
    and "service_replies model (safety_config w) (service w) (map prompt_for col)
           = (replies, failure, s')"
  shows "(\<forall>c. Milestone c
               \<in> set (new_events w (snd (translate_column df column_name model w)))
             \<longrightarrow> 0 < c \<and> nat c < length col
                 \<and> (\<exists>pre post.
                       new_events w (snd (translate_column df column_name model w))
                         = pre @ Milestone c
                             # Request (prompt_for (col ! nat c)) (safety_config w) # post
                       \<and> int (length (requests pre)) = c))
         \<and> (failure = None \<and> 0 < m \<and> length col = 100 * m
              \<longrightarrow> Milestone (int (100 * m))
                    \<notin> set (new_events w (snd (translate_column df column_name model w)))
                  \<and> filter (\<lambda>e. e = Milestone (int (100 * m)) \<or> e = Final (int (100 * m)))
                      (new_events w (snd (translate_column df column_name model w)))
                    = [Final (int (100 * m))])"
proof -
  let ?a = "attempted replies failure"
  let ?loop = "loop_events (safety_config w) 0 (take ?a col)"
  let ?fin = "case failure of None \<Rightarrow> [Final (int (length col))] | Some e \<Rightarrow> []"
  have ev: "new_events w (snd (translate_column df column_name model w)) = ?loop @ ?fin"
    by (rule translate_column_events [OF assms])
  have a: "?a \<le> length col"
    using service_replies_length [OF assms(2)] by simp
  have fin: "Milestone c \<notin> set ?fin" for c
    by (simp split: option.splits)
  have one: "0 < c \<and> nat c < length col
       \<and> (\<exists>pre post. ?loop @ ?fin
              = pre @ Milestone c # Request (prompt_for (col ! nat c)) (safety_config w) # post
            \<and> int (length (requests pre)) = c)"
    if "Milestone c \<in> set (?loop @ ?fin)" for c
  proof -
    from that have "Milestone c \<in> set ?loop"
      using fin by simp
    from milestone_position [OF this] obtain pre post where
      c: "0 < c" "nat c < 0 + length (take ?a col)"
      and e: "?loop = pre @ Milestone c
                 # Request (prompt_for (take ?a col ! (nat c - 0))) (safety_config w) # post"
      and l: "length (requests pre) = nat c - 0"
      by blast
    have lt: "nat c < ?a" "nat c < length col"
      using c(2) a by simp_all
    then have "take ?a col ! (nat c - 0) = col ! nat c"
      by simp
    then have "?loop @ ?fin
        = pre @ Milestone c # Request (prompt_for (col ! nat c)) (safety_config w)
            # (post @ ?fin)"
      using e by simp
    moreover have "int (length (requests pre)) = c"
      using l c(1) by simp
    ultimately show ?thesis using c(1) lt(2) by blast
  qed
  have two: "Milestone (int (100 * m)) \<notin> set (?loop @ ?fin)
      \<and> filter (\<lambda>e. e = Milestone (int (100 * m)) \<or> e = Final (int (100 * m))) (?loop @ ?fin)
          = [Final (int (100 * m))]"
    if "failure = None" and "0 < m" and "length col = 100 * m"
  proof -
    have no: "Milestone (int (100 * m)) \<notin> set (?loop @ ?fin)"
    proof
      assume "Milestone (int (100 * m)) \<in> set (?loop @ ?fin)"
      from one [OF this] have "nat (int (100 * m)) < length col" by simp
      then show False using that(3) by simp
    qed
    then have "Milestone (int (100 * m)) \<notin> set ?loop" by simp
    moreover have "Final (int (100 * m)) \<notin> set ?loop"
      by (rule final_not_in_loop_events)
    ultimately have "filter (\<lambda>e. e = Milestone (int (100 * m)) \<or> e = Final (int (100 * m)))
                       ?loop = []"
      by (auto simp: filter_empty_conv)
    then show ?thesis using no that by simp
  qed
  show ?thesis
    unfolding ev using one two by blast
qed

theorem milestone_only_before_next_row_witness:
  "notifications
     (new_events (example_world (replicate 200 []))
        (snd (translate_column 0 (ascii ''comment_text'') steady_model
               (example_world (replicate 200 [])))))
     = [Milestone 100, Final 200]
   \<and> Milestone 200
       \<notin> set (new_events (example_world (replicate 200 []))
                (snd (translate_column 0 (ascii ''comment_text'') steady_model
                       (example_world (replicate 200 [])))))"
proof -
  let ?col = "replicate 200 ([] :: pystr)"
  have r: "service_replies steady_model (safety_config (example_world ?col))
          (service (example_world ?col)) (map prompt_for ?col)
          = (replicate 200 example_reply, None, 200)"
    unfolding steady_replies by simp
  have n: "notifications
     (new_events (example_world ?col)
        (snd (translate_column 0 (ascii ''comment_text'') steady_model (example_world ?col))))
     = [Milestone 100, Final 200]"
    by (simp add: steady_events notifications_loop_events milestone_counts_200)
  from milestone_only_before_next_row [OF _ r, of 0 "ascii ''comment_text''" 2]
  have "Milestone 200
       \<notin> set (new_events (example_world ?col)
                (snd (translate_column 0 (ascii ''comment_text'') steady_model
                       (example_world ?col))))"
    by simp
  with n show ?thesis by simp
qed

end
